theory Spec2Isabelle
  imports Complex_Main
begin

section \<open>The recording hook \<open>useRecording\<close> (src/hooks/useRecording.ts)\<close>

text \<open>
  The hook keeps seven React state cells and returns four closures. A closure reads the
  cells through the \<open>const\<close> bindings of the render that created it, and writes them
  through the setters. So every operation below takes the render's snapshot \<open>s\<close> (what
  the closure reads) and the world \<open>w\<close> (what it writes to and calls into); a closure of
  the latest render has \<open>s = hook w\<close>.

  The platform objects (the media recorder with its stream, the voice registry, the
  notification layer, the network) are not part of the repository. They are modelled
  as a store of recorder objects, the list of registered profiles, and a trace of the
  calls made, in program order. User-visible texts are written without their
  diacritics.
\<close>

subsection \<open>Data\<close>

datatype variant = Default | Destructive

record toast =
  title :: string
  description :: string
  variant :: variant

text \<open>A value thrown by a callee: an \<open>Error\<close> object with its message, or anything else.\<close>

datatype thrown = Error string | NonError

type_synonym blob = "nat list"

record request =
  url :: string
  http_method :: string
  authorization :: string
  form_file :: blob
  form_filename :: string
  form_model :: string
  form_language :: string
  form_response_format :: string

datatype call =
    Toast toast
  | RegistryClear
  | PlayIdentificationPrompt
  | GetUserMedia
  | NewMediaRecorder nat
  | NewSpeechRecognition
  | RecorderStart nat nat
  | RecorderStop nat
  | RecorderPause nat
  | RecorderResume nat
  | TrackStop nat nat
  | RecognitionStart nat
  | RecognitionStop nat
  | AddProfile string
  | Fetch request
  | ConsoleError thrown

text \<open>The \<open>state\<close> attribute of a platform MediaRecorder, and the \<open>readyState\<close> of a track.\<close>

datatype recording_state = Inactive | Recording | Paused

datatype track_state = Live | Ended

text \<open>
  A recorder object as \<open>startRecording\<close> builds it: the platform's state and stream,
  the array \<open>audioChunks\<close> shared by its two handlers, and the two variables of the
  enclosing render that its \<open>onstop\<close> handler reads, \<open>apiKey\<close> and
  \<open>recordingStartTime\<close>, with the values they had in that render.
\<close>

record MediaRecorder =
  state :: recording_state
  stream :: "track_state list"
  audioChunks :: "blob list"
  closure_apiKey :: string
  closure_recordingStartTime :: "int option"

text \<open>
  Modelled from the spec: the type \<open>VoiceProfile\<close> of the voice registry is not under
  src/; the spec gives it a name and a placeholder embedding vector.
\<close>

record VoiceProfile =
  name :: string
  embedding :: "real list"

text \<open>The seven \<open>useState\<close> cells; object references are store addresses.\<close>

record 'seg hook_state =
  isRecording :: bool
  isPaused :: bool
  mediaRecorder :: "nat option"
  transcriptionSegments :: "'seg list"
  isTranscribing :: bool
  speechRecognition :: "nat option"
  recordingStartTime :: "int option"

record 'seg world =
  hook :: "'seg hook_state"
  recorders :: "nat \<Rightarrow> MediaRecorder"
  next_recorder :: nat
  profiles :: "VoiceProfile list"
  trace :: "call list"

definition initial_hook :: "'seg hook_state" where
  "initial_hook =
     \<lparr>isRecording = False, isPaused = False, mediaRecorder = None,
      transcriptionSegments = [], isTranscribing = False, speechRecognition = None,
      recordingStartTime = None\<rparr>"

definition no_recorder :: MediaRecorder where
  "no_recorder =
     \<lparr>state = Inactive, stream = [], audioChunks = [], closure_apiKey = [],
      closure_recordingStartTime = None\<rparr>"

definition initial :: "'seg world" where
  "initial =
     \<lparr>hook = initial_hook, recorders = (\<lambda>_. no_recorder), next_recorder = 0,
      profiles = [], trace = []\<rparr>"

subsection \<open>Calls into the platform\<close>

definition emit :: "call \<Rightarrow> 'seg world \<Rightarrow> 'seg world" where
  "emit c w = w\<lparr>trace := trace w @ [c]\<rparr>"

definition set_hook :: "('seg hook_state \<Rightarrow> 'seg hook_state) \<Rightarrow> 'seg world \<Rightarrow> 'seg world" where
  "set_hook f w = w\<lparr>hook := f (hook w)\<rparr>"

definition set_recorder :: "nat \<Rightarrow> (MediaRecorder \<Rightarrow> MediaRecorder) \<Rightarrow> 'seg world \<Rightarrow> 'seg world" where
  "set_recorder r f w = w\<lparr>recorders := (recorders w)(r := f (recorders w r))\<rparr>"

text \<open>
  \<open>MediaRecorder.stop()\<close> does nothing on an inactive recorder and makes any other one
  inactive; \<open>pause()\<close> and \<open>resume()\<close> are only ever called in the state they apply to.
\<close>

definition recorder_stop :: "nat \<Rightarrow> 'seg world \<Rightarrow> 'seg world" where
  "recorder_stop r w = set_recorder r (\<lambda>m. m\<lparr>state := Inactive\<rparr>) (emit (RecorderStop r) w)"

definition recorder_pause :: "nat \<Rightarrow> 'seg world \<Rightarrow> 'seg world" where
  "recorder_pause r w = set_recorder r (\<lambda>m. m\<lparr>state := Paused\<rparr>) (emit (RecorderPause r) w)"

definition recorder_resume :: "nat \<Rightarrow> 'seg world \<Rightarrow> 'seg world" where
  "recorder_resume r w = set_recorder r (\<lambda>m. m\<lparr>state := Recording\<rparr>) (emit (RecorderResume r) w)"

text \<open>\<open>stream.getTracks().forEach(track => track.stop())\<close>, track by track.\<close>

fun stop_tracks :: "nat \<Rightarrow> nat \<Rightarrow> nat \<Rightarrow> 'seg world \<Rightarrow> 'seg world" where
  "stop_tracks r i 0 w = w"
| "stop_tracks r i (Suc n) w =
     stop_tracks r (Suc i) n
       (set_recorder r (\<lambda>m. m\<lparr>stream := (stream m)[i := Ended]\<rparr>) (emit (TrackStop r i) w))"

subsection \<open>startRecording\<close>

text \<open>
  What the awaited and constructed platform objects do in one call of \<open>startRecording\<close>:
  whether \<open>playIdentificationPrompt\<close> resolves, whether \<open>getUserMedia\<close> resolves and
  with how many tracks, whether the recorder can be constructed, whether the platform
  has a speech recogniser to construct, and whether \<open>recorder.start\<close> succeeds. Each
  failure lands in the \<open>catch\<close> of \<open>startRecording\<close>.
\<close>

record start_env =
  prompt_resolves :: bool
  user_media :: "nat option"
  recorder_constructs :: bool
  recognition_available :: bool
  recorder_starts :: bool

definition missing_key_toast :: toast where
  "missing_key_toast =
     \<lparr>title = ''Erro'',
      description = ''Por favor, insira sua chave da API OpenAI primeiro.'',
      variant = Destructive\<rparr>"

definition microphone_toast :: toast where
  "microphone_toast =
     \<lparr>title = ''Erro'', description = ''Nao foi possivel acessar o microfone.'',
      variant = Destructive\<rparr>"

definition start_catch :: "'seg world \<Rightarrow> 'seg world" where
  "start_catch w = emit (Toast microphone_toast) w"

definition new_recorder :: "string \<Rightarrow> int option \<Rightarrow> nat \<Rightarrow> 'seg world \<Rightarrow> 'seg world" where
  "new_recorder apiKey start n w =
     emit (NewMediaRecorder (next_recorder w))
       (w\<lparr>recorders := (recorders w)(next_recorder w :=
            \<lparr>state = Inactive, stream = replicate n Live, audioChunks = [],
             closure_apiKey = apiKey, closure_recordingStartTime = start\<rparr>),
          next_recorder := Suc (next_recorder w)\<rparr>)"

definition started :: "nat \<Rightarrow> int \<Rightarrow> 'seg world \<Rightarrow> 'seg world" where
  "started r now w =
     set_hook (\<lambda>h. h\<lparr>recordingStartTime := Some now, mediaRecorder := Some r,
                     isRecording := True, isPaused := False\<rparr>)
       (set_recorder r (\<lambda>m. m\<lparr>state := Recording\<rparr>) (emit (RecorderStart r 1000) w))"

definition acquire :: "string \<Rightarrow> 'seg hook_state \<Rightarrow> start_env \<Rightarrow> int \<Rightarrow> 'seg world \<Rightarrow> 'seg world" where
  "acquire apiKey s env now w =
     (let w2 = emit GetUserMedia w in
      case user_media env of
        None \<Rightarrow> start_catch w2
      | Some n \<Rightarrow>
          if \<not> recorder_constructs env then start_catch w2
          else
            let r = next_recorder w2;
                w3 = new_recorder apiKey (recordingStartTime s) n w2
            in if \<not> recognition_available env then start_catch w3
               else
                 let w4 = emit NewSpeechRecognition w3
                 in if \<not> recorder_starts env then start_catch w4
                    else started r now w4)"

text \<open>
  The call is run to its end in one step: after its awaits it reads nothing but its own
  closure, and the handlers it installs on the recorder close over the same render, so
  the recorder is built with \<open>recordingStartTime s\<close>, while the state cell is set to
  \<open>Date.now()\<close> for the renders to come.

  Modelled from the spec: \<open>voiceIdentificationService.clear\<close> is not under src/; by the
  spec it clears the voice registry.
\<close>

definition startRecording ::
  "string \<Rightarrow> 'seg hook_state \<Rightarrow> bool \<Rightarrow> start_env \<Rightarrow> int \<Rightarrow> 'seg world \<Rightarrow> 'seg world" where
  "startRecording apiKey s identificationEnabled env now w =
     (if apiKey = [] then emit (Toast missing_key_toast) w
      else if identificationEnabled then
        (let w1 = emit PlayIdentificationPrompt (emit RegistryClear (w\<lparr>profiles := []\<rparr>))
         in if prompt_resolves env then acquire apiKey s env now w1 else start_catch w1)
      else acquire apiKey s env now w)"

subsection \<open>stopRecording, pauseRecording, resumeRecording\<close>

definition stopRecording :: "'seg hook_state \<Rightarrow> 'seg world \<Rightarrow> 'seg world" where
  "stopRecording s w =
     (case mediaRecorder s of
        None \<Rightarrow> w
      | Some r \<Rightarrow>
          let w1 = recorder_stop r w;
              w2 = stop_tracks r 0 (length (stream (recorders w1 r))) w1;
              w3 = (case speechRecognition s of
                      None \<Rightarrow> w2
                    | Some g \<Rightarrow> emit (RecognitionStop g) w2)
          in set_hook (\<lambda>h. h\<lparr>isRecording := False, isPaused := False, mediaRecorder := None,
                             speechRecognition := None, recordingStartTime := None\<rparr>) w3)"

definition paused_toast :: toast where
  "paused_toast =
     \<lparr>title = ''Gravacao pausada'',
      description = ''A gravacao foi pausada. Clique em retomar para continuar.'',
      variant = Default\<rparr>"

definition resumed_toast :: toast where
  "resumed_toast =
     \<lparr>title = ''Gravacao retomada'', description = ''A gravacao foi retomada.'',
      variant = Default\<rparr>"

definition pauseRecording :: "'seg hook_state \<Rightarrow> 'seg world \<Rightarrow> 'seg world" where
  "pauseRecording s w =
     (case mediaRecorder s of
        None \<Rightarrow> w
      | Some r \<Rightarrow>
          if state (recorders w r) = Recording then
            (let w1 = recorder_pause r w;
                 w2 = (case speechRecognition s of
                         None \<Rightarrow> w1
                       | Some g \<Rightarrow> emit (RecognitionStop g) w1)
             in emit (Toast paused_toast) (set_hook (\<lambda>h. h\<lparr>isPaused := True\<rparr>) w2))
          else w)"

definition resumeRecording :: "'seg hook_state \<Rightarrow> 'seg world \<Rightarrow> 'seg world" where
  "resumeRecording s w =
     (case mediaRecorder s of
        None \<Rightarrow> w
      | Some r \<Rightarrow>
          if state (recorders w r) = Paused then
            (let w1 = recorder_resume r w;
                 w2 = (case speechRecognition s of
                         None \<Rightarrow> w1
                       | Some g \<Rightarrow> emit (RecognitionStart g) w1)
             in emit (Toast resumed_toast) (set_hook (\<lambda>h. h\<lparr>isPaused := False\<rparr>) w2))
          else w)"

subsection \<open>The recorder's handlers\<close>

text \<open>\<open>ondataavailable\<close>: an empty blob is dropped, any other is pushed on \<open>audioChunks\<close>.\<close>

definition ondataavailable :: "nat \<Rightarrow> blob \<Rightarrow> 'seg world \<Rightarrow> 'seg world" where
  "ondataavailable r data w =
     (if length data > 0 then set_recorder r (\<lambda>m. m\<lparr>audioChunks := audioChunks m @ [data]\<rparr>) w
      else w)"

text \<open>
  The guard of \<open>onstop\<close>: \<open>!recordingStartTime || Date.now() - recordingStartTime < 100\<close>.
  The variable is falsy when it is \<open>null\<close> or \<open>0\<close>.
\<close>

definition too_short :: "int option \<Rightarrow> int \<Rightarrow> bool" where
  "too_short start now = (case start of None \<Rightarrow> True | Some t \<Rightarrow> t = 0 \<or> now - t < 100)"

definition too_short_toast :: toast where
  "too_short_toast =
     \<lparr>title = ''Aviso'',
      description = ''A gravacao e muito curta. Por favor, grave por mais tempo.'',
      variant = Destructive\<rparr>"

definition transcription_request :: "string \<Rightarrow> blob \<Rightarrow> request" where
  "transcription_request apiKey audioBlob =
     \<lparr>url = ''https://api.openai.com/v1/audio/transcriptions'', http_method = ''POST'',
      authorization = ''Bearer '' @ apiKey, form_file = audioBlob,
      form_filename = ''audio.wav'', form_model = ''whisper-1'', form_language = ''pt'',
      form_response_format = ''verbose_json''\<rparr>"

text \<open>
  \<open>onstop\<close> up to its \<open>await fetch(...)\<close>: the handler of recorder \<open>r\<close>, run when the
  clock reads \<open>now\<close>. It reads \<open>recordingStartTime\<close> and \<open>apiKey\<close> from its closure.
\<close>

definition onstop :: "nat \<Rightarrow> int \<Rightarrow> 'seg world \<Rightarrow> 'seg world" where
  "onstop r now w =
     (let m = recorders w r;
          audioBlob = concat (audioChunks m)
      in if too_short (closure_recordingStartTime m) now then emit (Toast too_short_toast) w
         else emit (Fetch (transcription_request (closure_apiKey m) audioBlob))
                (set_hook (\<lambda>h. h\<lparr>isTranscribing := True\<rparr>) w))"

text \<open>
  How the request settles: \<open>fetch\<close> rejects; or the response is not ok, and reading
  \<open>errorData.error?.message\<close> off its body throws or gives a message or nothing; or the
  response is ok, and \<open>response.json()\<close> throws or gives the raw result.
\<close>

datatype 'j fetch_outcome =
    Rejected thrown
  | NotOk "thrown + string option"
  | Ok "thrown + 'j"

definition transcribe :: "('j \<Rightarrow> thrown + 'seg list) \<Rightarrow> 'j fetch_outcome \<Rightarrow> thrown + 'seg list" where
  "transcribe processTranscriptionResult outcome =
     (case outcome of
        Rejected e \<Rightarrow> Inl e
      | NotOk (Inl e) \<Rightarrow> Inl e
      | NotOk (Inr msg) \<Rightarrow>
          Inl (Error (case msg of
                        None \<Rightarrow> ''Falha na transcricao''
                      | Some t \<Rightarrow> if t = [] then ''Falha na transcricao'' else t))
      | Ok (Inl e) \<Rightarrow> Inl e
      | Ok (Inr result) \<Rightarrow> processTranscriptionResult result)"

definition done_toast :: toast where
  "done_toast =
     \<lparr>title = ''Transcricao concluida'', description = ''A ata da reuniao esta pronta.'',
      variant = Default\<rparr>"

definition error_toast :: "thrown \<Rightarrow> toast" where
  "error_toast e =
     \<lparr>title = ''Erro na transcricao'',
      description = (case e of
                       Error msg \<Rightarrow> msg
                     | NonError \<Rightarrow> ''Nao foi possivel transcrever o audio.''),
      variant = Destructive\<rparr>"

text \<open>\<open>onstop\<close> from the point where the request has settled: the rest of \<open>try\<close>, \<open>catch\<close>, \<open>finally\<close>.\<close>

definition onstop_settled ::
  "('j \<Rightarrow> thrown + 'seg list) \<Rightarrow> 'j fetch_outcome \<Rightarrow> 'seg world \<Rightarrow> 'seg world" where
  "onstop_settled processTranscriptionResult outcome w =
     (let w1 = (case transcribe processTranscriptionResult outcome of
                  Inr segments \<Rightarrow>
                    emit (Toast done_toast)
                      (set_hook (\<lambda>h. h\<lparr>transcriptionSegments := segments\<rparr>) w)
                | Inl e \<Rightarrow> emit (Toast (error_toast e)) (emit (ConsoleError e) w))
      in set_hook (\<lambda>h. h\<lparr>isTranscribing := False\<rparr>) w1)"

subsection \<open>The live-recognition handler\<close>

definition participant_toast :: "string \<Rightarrow> toast" where
  "participant_toast n =
     \<lparr>title = ''Novo participante identificado'',
      description = ''Identificamos o participante: '' @ n, variant = Default\<rparr>"

text \<open>
  The body of the loop of \<open>onresult\<close> for one transcript. \<open>handleNameRecognition\<close> and
  the registry's \<open>addProfile\<close> are not under src/ and are parameters; a name is falsy
  when it is \<open>null\<close> or empty.
\<close>

definition register ::
  "(string \<Rightarrow> string option) \<Rightarrow> (VoiceProfile list \<Rightarrow> string \<Rightarrow> real list \<Rightarrow> VoiceProfile list)
     \<Rightarrow> string \<Rightarrow> 'seg world \<Rightarrow> 'seg world" where
  "register handleNameRecognition addProfile transcript w =
     (case handleNameRecognition transcript of
        None \<Rightarrow> w
      | Some n \<Rightarrow>
          if n \<noteq> [] \<and> find (\<lambda>p. name p = n) (profiles w) = None then
            emit (Toast (participant_toast n))
              (emit (AddProfile n) (w\<lparr>profiles := addProfile (profiles w) n []\<rparr>))
          else w)"

text \<open>
  The loop over the results, each the list of its alternatives' transcripts. Reading
  \<open>results[i][0].transcript\<close> of a result without alternatives throws and ends the handler.
\<close>

fun onresult_loop ::
  "(string \<Rightarrow> string option) \<Rightarrow> (VoiceProfile list \<Rightarrow> string \<Rightarrow> real list \<Rightarrow> VoiceProfile list)
     \<Rightarrow> string list list \<Rightarrow> 'seg world \<Rightarrow> 'seg world" where
  "onresult_loop h a [] w = w"
| "onresult_loop h a ([] # rest) w = w"
| "onresult_loop h a ((transcript # alts) # rest) w =
     onresult_loop h a rest (register h a transcript w)"

definition onresult ::
  "(string \<Rightarrow> string option) \<Rightarrow> (VoiceProfile list \<Rightarrow> string \<Rightarrow> real list \<Rightarrow> VoiceProfile list)
     \<Rightarrow> nat \<Rightarrow> string list list \<Rightarrow> 'seg world \<Rightarrow> 'seg world" where
  "onresult h a resultIndex results w = onresult_loop h a (drop resultIndex results) w"

text \<open>
  Modelled from the spec: \<open>voiceIdentificationService.addProfile\<close> is not under src/; by
  the spec it adds a voice profile of the name with the placeholder embedding.
\<close>

definition addProfile :: "VoiceProfile list \<Rightarrow> string \<Rightarrow> real list \<Rightarrow> VoiceProfile list" where
  "addProfile ps n e = ps @ [\<lparr>name = n, embedding = e\<rparr>]"

subsection \<open>Runs of the hook\<close>

text \<open>
  What can happen to a mounted hook: a call of one of its four operations, taken from
  the latest render, or an event of a recorder or recogniser it created. Each is run to
  completion. The events are not tied to the platform's schedule, so the runs include
  every real one.
\<close>

datatype 'j event =
    Start bool start_env int
  | Stop
  | Pause
  | Resume
  | DataAvailable nat blob
  | StopEvent nat int
  | FetchSettled "'j fetch_outcome"
  | ResultEvent nat "string list list"

record ('j, 'seg) services =
  hook_apiKey :: string
  handleNameRecognition :: "string \<Rightarrow> string option"
  processTranscriptionResult :: "'j \<Rightarrow> thrown + 'seg list"
  registry_addProfile :: "VoiceProfile list \<Rightarrow> string \<Rightarrow> real list \<Rightarrow> VoiceProfile list"

fun fire :: "('j, 'seg) services \<Rightarrow> 'j event \<Rightarrow> 'seg world \<Rightarrow> 'seg world" where
  "fire sv (Start identificationEnabled env now) w =
     startRecording (hook_apiKey sv) (hook w) identificationEnabled env now w"
| "fire sv Stop w = stopRecording (hook w) w"
| "fire sv Pause w = pauseRecording (hook w) w"
| "fire sv Resume w = resumeRecording (hook w) w"
| "fire sv (DataAvailable r data) w = ondataavailable r data w"
| "fire sv (StopEvent r now) w = onstop r now w"
| "fire sv (FetchSettled outcome) w = onstop_settled (processTranscriptionResult sv) outcome w"
| "fire sv (ResultEvent resultIndex results) w =
     onresult (handleNameRecognition sv) (registry_addProfile sv) resultIndex results w"

fun run :: "('j, 'seg) services \<Rightarrow> 'j event list \<Rightarrow> 'seg world \<Rightarrow> 'seg world" where
  "run sv [] w = w"
| "run sv (ev # evs) w = run sv evs (fire sv ev w)"

subsection \<open>Notions used in the statements\<close>

text \<open>The registry test of \<open>onresult\<close>: \<open>profiles.find(p => p.name === name)\<close> finds a profile.\<close>

definition registered :: "string \<Rightarrow> VoiceProfile list \<Rightarrow> bool" where
  "registered n ps = (find (\<lambda>p. name p = n) ps \<noteq> None)"

text \<open>
  What the live-recognition handler needs of the absent \<open>addProfile\<close>: it registers the
  name it is given and drops no other.
\<close>

definition keeps_names ::
  "(VoiceProfile list \<Rightarrow> string \<Rightarrow> real list \<Rightarrow> VoiceProfile list) \<Rightarrow> bool" where
  "keeps_names a = (\<forall>ps n e m. registered m ps \<or> m = n \<longrightarrow> registered m (a ps n e))"

text \<open>The transcripts one \<open>onresult\<close> event reads before it ends.\<close>

fun heard :: "string list list \<Rightarrow> string list" where
  "heard [] = []"
| "heard ([] # rest) = []"
| "heard ((transcript # alts) # rest) = transcript # heard rest"

text \<open>The calls that start or stop a live-recognition instance.\<close>

fun recognition_call :: "call \<Rightarrow> bool" where
  "recognition_call (RecognitionStart g) = True"
| "recognition_call (RecognitionStop g) = True"
| "recognition_call c = False"

definition recognition_idle :: "'seg world \<Rightarrow> bool" where
  "recognition_idle w =
     (speechRecognition (hook w) = None \<and> \<not> list_ex recognition_call (trace w))"


subsection \<open>Sample inputs\<close>

text \<open>
  A platform that grants everything (one audio track), services that take every
  non-empty transcript for a name and every raw result for its segments, and two
  worlds: one recording, one where \<open>startRecording\<close> was called again while recording.
\<close>

definition granted :: start_env where
  "granted =
     \<lparr>prompt_resolves = True, user_media = Some 1, recorder_constructs = True,
      recognition_available = True, recorder_starts = True\<rparr>"

definition sample_services :: "(string list, string) services" where
  "sample_services =
     \<lparr>hook_apiKey = ''sk-test'',
      handleNameRecognition = (\<lambda>t. if t = [] then None else Some t),
      processTranscriptionResult = Inr,
      registry_addProfile = addProfile\<rparr>"

definition recording :: "string world" where
  "recording = run sample_services [Start False granted 1000] initial"


section \<open>Properties\<close>

lemmas world_defs = emit_def set_hook_def set_recorder_def

lemmas op_defs =
  startRecording_def acquire_def started_def new_recorder_def start_catch_def
  stopRecording_def pauseRecording_def resumeRecording_def
  recorder_stop_def recorder_pause_def recorder_resume_def
  ondataavailable_def onstop_def onstop_settled_def

lemmas eval_defs =
  op_defs world_defs initial_def initial_hook_def no_recorder_def granted_def
  sample_services_def too_short_def Let_def

subsection \<open>Starting\<close>

text \<open>
  C3: a call of \<open>startRecording\<close> with an empty credential emits the error notification
  and returns: nothing else is called (so the microphone is not requested), and the hook
  state, the recorders and the registry are as before.
\<close>

theorem startRecording_without_credential:
  "apiKey = [] \<Longrightarrow>
     hook (startRecording apiKey s identificationEnabled env now w) = hook w \<and>
     recorders (startRecording apiKey s identificationEnabled env now w) = recorders w \<and>
     next_recorder (startRecording apiKey s identificationEnabled env now w) = next_recorder w \<and>
     profiles (startRecording apiKey s identificationEnabled env now w) = profiles w \<and>
     trace (startRecording apiKey s identificationEnabled env now w) =
       trace w @ [Toast missing_key_toast] \<and>
     variant missing_key_toast = Destructive"
  by (simp add: startRecording_def emit_def missing_key_toast_def)

theorem startRecording_without_credential_witness:
  "hook (startRecording [] initial_hook True granted 1000 (initial :: string world)) =
     initial_hook \<and>
   trace (startRecording [] initial_hook True granted 1000 (initial :: string world)) =
     [Toast missing_key_toast]"
  using startRecording_without_credential
    [of "[]" initial_hook True granted 1000 "initial :: string world"]
  by (simp add: initial_def)

lemma acquire_trace:
  "\<exists>more. trace (acquire k s env now w) = trace w @ GetUserMedia # more \<and>
      GetUserMedia \<notin> set more \<and> RegistryClear \<notin> set more \<and>
      PlayIdentificationPrompt \<notin> set more"
  by (cases "user_media env")
    (simp_all add: acquire_def started_def new_recorder_def start_catch_def world_defs Let_def)

lemma acquire_profiles: "profiles (acquire k s env now w) = profiles w"
  by (cases "user_media env")
    (simp_all add: acquire_def started_def new_recorder_def start_catch_def world_defs Let_def)

text \<open>
  C9: with a credential and identification enabled, \<open>startRecording\<close> clears the registry
  and plays the prompt first; the microphone is requested after the prompt has resolved,
  once, and is not requested when the prompt fails. With identification disabled the
  first call is the microphone request, the registry is not cleared and no prompt is
  played.
\<close>

theorem identification_before_microphone:
  assumes "apiKey \<noteq> []"
  shows "(identificationEnabled \<longrightarrow>
            profiles (startRecording apiKey s identificationEnabled env now w) = [] \<and>
            (\<exists>rest. trace (startRecording apiKey s identificationEnabled env now w) =
                 trace w @ RegistryClear # PlayIdentificationPrompt # rest \<and>
               RegistryClear \<notin> set rest \<and> PlayIdentificationPrompt \<notin> set rest \<and>
               (if prompt_resolves env
                then \<exists>more. rest = GetUserMedia # more \<and> GetUserMedia \<notin> set more
                else GetUserMedia \<notin> set rest))) \<and>
         (\<not> identificationEnabled \<longrightarrow>
            profiles (startRecording apiKey s identificationEnabled env now w) = profiles w \<and>
            (\<exists>more. trace (startRecording apiKey s identificationEnabled env now w) =
                 trace w @ GetUserMedia # more \<and>
               RegistryClear \<notin> set more \<and> PlayIdentificationPrompt \<notin> set more))"
proof (cases identificationEnabled)
  case False
  with assms acquire_trace [of apiKey s env now w] show ?thesis
    by (auto simp: startRecording_def acquire_profiles)
next
  case True
  let ?w1 = "emit PlayIdentificationPrompt (emit RegistryClear (w\<lparr>profiles := []\<rparr>))"
  have t1: "trace ?w1 = trace w @ [RegistryClear, PlayIdentificationPrompt]"
    by (simp add: world_defs)
  have p1: "profiles ?w1 = []"
    by (simp add: world_defs)
  show ?thesis
  proof (cases "prompt_resolves env")
    case False
    with True assms t1 p1 show ?thesis
      by (simp add: startRecording_def Let_def start_catch_def world_defs)
  next
    case resolves: True
    obtain more where "trace (acquire apiKey s env now ?w1) = trace ?w1 @ GetUserMedia # more"
      and "GetUserMedia \<notin> set more" and "RegistryClear \<notin> set more"
      and "PlayIdentificationPrompt \<notin> set more"
      using acquire_trace [of apiKey s env now ?w1] by blast
    with True resolves assms t1 p1 show ?thesis
      by (simp add: startRecording_def Let_def acquire_profiles)
  qed
qed

theorem identification_before_microphone_witness:
  "''sk-test'' \<noteq> [] \<and>
   trace (startRecording ''sk-test'' initial_hook True granted 1000 (initial :: string world)) =
     [RegistryClear, PlayIdentificationPrompt, GetUserMedia, NewMediaRecorder 0,
      NewSpeechRecognition, RecorderStart 0 1000]"
  using identification_before_microphone
    [of "''sk-test''" True initial_hook granted 1000 "initial :: string world"]
  by (simp add: eval_defs)

subsection \<open>Stopping, pausing, resuming\<close>

lemma stop_tracks_frame:
  "hook (stop_tracks r i n w) = hook w \<and> profiles (stop_tracks r i n w) = profiles w \<and>
   next_recorder (stop_tracks r i n w) = next_recorder w \<and>
   trace (stop_tracks r i n w) = trace w @ map (TrackStop r) [i..<i + n] \<and>
   state (recorders (stop_tracks r i n w) q) = state (recorders w q)"
  by (induction r i n w rule: stop_tracks.induct) (simp_all add: world_defs upt_rec)

lemma stop_tracks_stream:
  "stream (recorders (stop_tracks r i n w) r) =
     map (\<lambda>j. if i \<le> j \<and> j < i + n then Ended else stream (recorders w r) ! j)
       [0..<length (stream (recorders w r))]"
proof (induction r i n w rule: stop_tracks.induct)
  case (1 r i w)
  then show ?case by (auto intro!: nth_equalityI)
next
  case (2 r i n w)
  then show ?case
    by (auto simp: world_defs nth_list_update intro!: nth_equalityI)
qed

lemma stop_tracks_all:
  "stream (recorders (stop_tracks r 0 (length (stream (recorders w r))) w) r) =
     replicate (length (stream (recorders w r))) Ended"
  by (auto simp: stop_tracks_stream intro!: nth_equalityI)

lemma stop_tracks_no_recognition:
  "list_ex recognition_call (trace (stop_tracks r i n w)) = list_ex recognition_call (trace w)"
  by (induction r i n w rule: stop_tracks.induct) (simp_all add: world_defs)

text \<open>
  C7: \<open>pauseRecording\<close> changes nothing when there is no recorder or the recorder is not
  recording, and \<open>resumeRecording\<close> changes nothing when there is no recorder or the
  recorder is not paused: the world, with its trace of calls, is the same.
\<close>

theorem pause_resume_noop:
  "(mediaRecorder s = None \<or> (\<exists>r. mediaRecorder s = Some r \<and> state (recorders w r) \<noteq> Recording)
      \<longrightarrow> pauseRecording s w = w) \<and>
   (mediaRecorder s = None \<or> (\<exists>r. mediaRecorder s = Some r \<and> state (recorders w r) \<noteq> Paused)
      \<longrightarrow> resumeRecording s w = w)"
  by (auto simp: pauseRecording_def resumeRecording_def)

theorem pause_resume_noop_witness:
  "mediaRecorder (initial_hook :: string hook_state) = None \<and>
   pauseRecording initial_hook (initial :: string world) = initial \<and>
   resumeRecording initial_hook (initial :: string world) = initial"
  using pause_resume_noop [of "initial_hook :: string hook_state" initial]
  by (simp add: initial_hook_def)

text \<open>
  C8: with a recorder in the hook state, \<open>stopRecording\<close> stops the recorder and every
  track of its stream, sets \<open>isRecording\<close>, \<open>isPaused\<close>, \<open>mediaRecorder\<close>,
  \<open>speechRecognition\<close> and \<open>recordingStartTime\<close> to their idle values and leaves
  \<open>isTranscribing\<close> and \<open>transcriptionSegments\<close> as they were; it calls nothing but the
  recorder, its tracks and a stored recogniser.
\<close>

theorem stopRecording_resets:
  assumes "mediaRecorder s = Some r"
  shows "state (recorders (stopRecording s w) r) = Inactive \<and>
     stream (recorders (stopRecording s w) r) = replicate (length (stream (recorders w r))) Ended \<and>
     hook (stopRecording s w) =
       (hook w)\<lparr>isRecording := False, isPaused := False, mediaRecorder := None,
                speechRecognition := None, recordingStartTime := None\<rparr> \<and>
     isTranscribing (hook (stopRecording s w)) = isTranscribing (hook w) \<and>
     transcriptionSegments (hook (stopRecording s w)) = transcriptionSegments (hook w) \<and>
     trace (stopRecording s w) =
       trace w @ RecorderStop r # map (TrackStop r) [0..<length (stream (recorders w r))] @
         (case speechRecognition s of None \<Rightarrow> [] | Some g \<Rightarrow> [RecognitionStop g])"
proof -
  let ?w1 = "recorder_stop r w"
  have len: "stream (recorders ?w1 r) = stream (recorders w r)"
    by (simp add: recorder_stop_def world_defs)
  have st: "stream (recorders (stop_tracks r 0 (length (stream (recorders ?w1 r))) ?w1) r) =
      replicate (length (stream (recorders w r))) Ended"
    using stop_tracks_all [of r ?w1] by (simp add: len)
  show ?thesis
    using assms st
    by (cases "speechRecognition s")
      (simp_all add: stopRecording_def Let_def stop_tracks_frame len world_defs recorder_stop_def)
qed

theorem stopRecording_resets_witness:
  "mediaRecorder (hook recording) = Some 0 \<and>
   state (recorders (stopRecording (hook recording) recording) 0) = Inactive \<and>
   stream (recorders (stopRecording (hook recording) recording) 0) = [Ended] \<and>
   isRecording (hook (stopRecording (hook recording) recording)) = False \<and>
   mediaRecorder (hook (stopRecording (hook recording) recording)) = None"
proof -
  have h: "mediaRecorder (hook recording) = Some 0"
    by (simp add: recording_def eval_defs)
  have "stream (recorders recording 0) = [Live]"
    by (simp add: recording_def eval_defs)
  with h stopRecording_resets [OF h, of recording] show ?thesis
    by simp
qed

subsection \<open>The stop handler\<close>

lemma onstop_without_start_time:
  "closure_recordingStartTime (recorders w r) = None \<Longrightarrow>
     onstop r now w = emit (Toast too_short_toast) w"
  by (simp add: onstop_def too_short_def)

lemma startRecording_captures:
  assumes "apiKey \<noteq> []" and "user_media env = Some n" and "recorder_constructs env"
    and "recognition_available env" and "recorder_starts env"
  shows "closure_recordingStartTime
           (recorders (startRecording apiKey s False env now w) (next_recorder w)) =
           recordingStartTime s \<and>
         recordingStartTime (hook (startRecording apiKey s False env now w)) = Some now \<and>
         mediaRecorder (hook (startRecording apiKey s False env now w)) =
           Some (next_recorder w)"
  using assms by (simp add: op_defs world_defs Let_def)

lemma onstop_after_idle_start:
  assumes "apiKey \<noteq> []" and "user_media env = Some n" and "recorder_constructs env"
    and "recognition_available env" and "recorder_starts env"
    and "recordingStartTime s = None"
    and "closure_recordingStartTime (recorders w' (next_recorder w)) =
           closure_recordingStartTime
             (recorders (startRecording apiKey s False env now w) (next_recorder w))"
  shows "onstop (next_recorder w) later w' = emit (Toast too_short_toast) w'"
  using assms startRecording_captures [of apiKey env n s now w]
  by (simp add: onstop_without_start_time)

text \<open>
  C1, on the code: a hook is mounted with a credential, \<open>startRecording\<close> is called at
  time 1000 and \<open>stopRecording\<close> five seconds later. The \<open>onstop\<close> handler reads the
  \<open>recordingStartTime\<close> of the render in which \<open>startRecording\<close> was called, which is
  \<open>null\<close>, although the state cell holds 1000. It emits the warning and returns: the
  transcribing flag is never set and no request is made.
\<close>

theorem first_recording_rejected:
  "trace (run sample_services [Start False granted 1000, Stop, DataAvailable 0 [82, 73],
       StopEvent 0 6000] (initial :: string world)) =
     [GetUserMedia, NewMediaRecorder 0, NewSpeechRecognition, RecorderStart 0 1000,
      RecorderStop 0, TrackStop 0 0, Toast too_short_toast] \<and>
   recordingStartTime (hook (run sample_services [Start False granted 1000]
       (initial :: string world))) = Some 1000 \<and>
   closure_recordingStartTime (recorders (run sample_services [Start False granted 1000]
       (initial :: string world)) 0) = None \<and>
   isTranscribing (hook (run sample_services [Start False granted 1000, Stop,
       DataAvailable 0 [82, 73], StopEvent 0 6000] (initial :: string world))) = False"
  by (simp add: eval_defs)

text \<open>
  C2, on the code: \<open>startRecording\<close> is called at time 1000 and again at time 5000, then
  \<open>stopRecording\<close> at 5050. The second recorder has run for 50 milliseconds, but its
  \<open>onstop\<close> handler measures from 1000, the start time of the render it was created
  in, so it sets the transcribing flag and posts the audio.
\<close>

theorem short_second_recording_submitted:
  "recordingStartTime (hook (run sample_services [Start False granted 1000,
       Start False granted 5000] (initial :: string world))) = Some 5000 \<and>
   mediaRecorder (hook (run sample_services [Start False granted 1000,
       Start False granted 5000] (initial :: string world))) = Some 1 \<and>
   closure_recordingStartTime (recorders (run sample_services [Start False granted 1000,
       Start False granted 5000] (initial :: string world)) 1) = Some 1000 \<and>
   (5050 :: int) - 5000 < 100 \<and>
   trace (run sample_services [Start False granted 1000, Start False granted 5000, Stop,
       DataAvailable 1 [82, 73], StopEvent 1 5050] (initial :: string world)) =
     [GetUserMedia, NewMediaRecorder 0, NewSpeechRecognition, RecorderStart 0 1000,
      GetUserMedia, NewMediaRecorder 1, NewSpeechRecognition, RecorderStart 1 1000,
      RecorderStop 1, TrackStop 1 0,
      Fetch (transcription_request ''sk-test'' [82, 73])] \<and>
   isTranscribing (hook (run sample_services [Start False granted 1000,
       Start False granted 5000, Stop, DataAvailable 1 [82, 73], StopEvent 1 5050]
       (initial :: string world))) = True"
  by (simp add: eval_defs)




subsection \<open>The live-recognition handler\<close>

lemma register_cases:
  "register h a t w =
     (case h t of
        None \<Rightarrow> w
      | Some n \<Rightarrow>
          if n \<noteq> [] \<and> \<not> registered n (profiles w) then
            emit (Toast (participant_toast n))
              (emit (AddProfile n) (w\<lparr>profiles := a (profiles w) n []\<rparr>))
          else w)"
  by (simp add: register_def registered_def split: option.splits)

lemma register_fixed:
  "(register h a t w = w) =
     (case h t of None \<Rightarrow> True | Some n \<Rightarrow> n = [] \<or> registered n (profiles w))"
proof (cases "h t")
  case None
  then show ?thesis by (simp add: register_cases)
next
  case (Some n)
  show ?thesis
  proof (cases "n \<noteq> [] \<and> \<not> registered n (profiles w)")
    case True
    have "length (trace (register h a t w)) \<noteq> length (trace w)"
      using Some True by (simp add: register_cases world_defs)
    then have "register h a t w \<noteq> w" by auto
    with Some True show ?thesis by simp
  next
    case False
    with Some show ?thesis by (auto simp: register_cases)
  qed
qed

lemma register_keeps:
  "keeps_names a \<Longrightarrow> registered m (profiles w) \<Longrightarrow> registered m (profiles (register h a t w))"
  by (simp add: keeps_names_def register_cases world_defs split: option.splits)

lemma register_settles:
  assumes "keeps_names a"
  shows "register h a t (register h a t w) = register h a t w"
proof (cases "h t")
  case None
  then show ?thesis by (simp add: register_cases)
next
  case (Some n)
  show ?thesis
  proof (cases "n \<noteq> [] \<and> \<not> registered n (profiles w)")
    case True
    have "registered n (profiles (register h a t w))"
      using Some True assms by (simp add: keeps_names_def register_cases world_defs)
    with Some show ?thesis by (simp add: register_fixed)
  next
    case False
    with Some have "register h a t w = w" by (auto simp: register_cases)
    then show ?thesis by simp
  qed
qed

lemma register_mono:
  "keeps_names a \<Longrightarrow> register h a t w = w \<Longrightarrow>
     register h a t (register h a u w) = register h a u w"
  using register_keeps [of a _ w h u]
  by (auto simp: register_fixed split: option.splits)

lemma loop_mono:
  "keeps_names a \<Longrightarrow> register h a t w = w \<Longrightarrow>
     register h a t (onresult_loop h a rs w) = onresult_loop h a rs w"
  by (induction h a rs w rule: onresult_loop.induct) (simp_all add: register_mono)

lemma loop_fixed:
  "(\<forall>t \<in> set (heard rs). register h a t w = w) \<Longrightarrow> onresult_loop h a rs w = w"
  by (induction h a rs w rule: onresult_loop.induct) simp_all

lemma loop_settles:
  "keeps_names a \<Longrightarrow>
     \<forall>t \<in> set (heard rs). register h a t (onresult_loop h a rs w) = onresult_loop h a rs w"
proof (induction h a rs w rule: onresult_loop.induct)
  case (3 h a u alts rest w)
  have "register h a u (register h a u w) = register h a u w"
    using 3 by (simp add: register_settles)
  then have "register h a u (onresult_loop h a rest (register h a u w)) =
      onresult_loop h a rest (register h a u w)"
    using 3 by (simp add: loop_mono)
  with 3 show ?case by simp
qed simp_all

lemma loop_idem:
  "keeps_names a \<Longrightarrow> onresult_loop h a rs (onresult_loop h a rs w) = onresult_loop h a rs w"
  by (rule loop_fixed) (rule loop_settles)

lemma register_count:
  "count_list (trace (register h a t w)) (AddProfile n) =
     count_list (trace w) (AddProfile n) +
       (if h t = Some n \<and> n \<noteq> [] \<and> \<not> registered n (profiles w) then 1 else 0)"
  by (auto simp: register_cases world_defs split: option.splits)

lemma loop_count_registered:
  "keeps_names a \<Longrightarrow> registered n (profiles w) \<Longrightarrow>
     count_list (trace (onresult_loop h a rs w)) (AddProfile n) =
       count_list (trace w) (AddProfile n)"
proof (induction h a rs w rule: onresult_loop.induct)
  case (3 h a u alts rest w)
  then show ?case using register_keeps [of a n w h u] by (simp add: register_count)
qed simp_all

lemma loop_count:
  "keeps_names a \<Longrightarrow>
     count_list (trace (onresult_loop h a rs w)) (AddProfile n) \<le>
       count_list (trace w) (AddProfile n) + 1"
proof (induction h a rs w rule: onresult_loop.induct)
  case (3 h a u alts rest w)
  let ?w1 = "register h a u w"
  show ?case
  proof (cases "registered n (profiles ?w1)")
    case True
    then have "count_list (trace (onresult_loop h a rest ?w1)) (AddProfile n) =
        count_list (trace ?w1) (AddProfile n)"
      using 3 by (simp add: loop_count_registered)
    then show ?thesis by (simp add: register_count)
  next
    case False
    then have "count_list (trace ?w1) (AddProfile n) = count_list (trace w) (AddProfile n)"
      using 3(2)
      by (auto simp: keeps_names_def register_count register_cases world_defs
          split: option.splits)
    with 3 show ?thesis by simp
  qed
qed simp_all

lemma addProfile_keeps: "registered m ps \<or> m = n \<Longrightarrow> registered m (addProfile ps n e)"
  by (auto simp: registered_def addProfile_def find_None_iff)

text \<open>
  C6: a transcript whose recognised name already has a profile changes nothing: no
  profile is added and no notification is emitted. When \<open>addProfile\<close> registers the name
  it is given and keeps the others, a transcript processed a second time changes
  nothing, so does a whole result event, and one event calls \<open>addProfile\<close> at most once
  for a name, and not at all for a name that was registered before.
\<close>

theorem repeated_name_not_registered_again:
  assumes "\<forall>ps n e m. registered m ps \<or> m = n \<longrightarrow> registered m (a ps n e)"
  shows "(h t = Some n \<and> registered n (profiles w) \<longrightarrow> register h a t w = w) \<and>
         register h a t (register h a t w) = register h a t w \<and>
         onresult h a i rs (onresult h a i rs w) = onresult h a i rs w \<and>
         count_list (trace (onresult h a i rs w)) (AddProfile n) \<le>
           count_list (trace w) (AddProfile n) + 1 \<and>
         (registered n (profiles w) \<longrightarrow>
            count_list (trace (onresult h a i rs w)) (AddProfile n) =
              count_list (trace w) (AddProfile n))"
proof -
  have keeps: "keeps_names a"
    using assms by (simp add: keeps_names_def)
  show ?thesis
    using register_settles [OF keeps, of h t w] loop_idem [OF keeps, of h "drop i rs" w]
      loop_count [OF keeps, of h "drop i rs" w n]
      loop_count_registered [OF keeps, of n w h "drop i rs"]
    by (simp add: onresult_def register_fixed)
qed

theorem repeated_name_not_registered_again_witness:
  "registered ''Ana'' (addProfile [] ''Ana'' []) \<and>
   profiles (onresult (handleNameRecognition sample_services) addProfile 0
       [[''Ana''], [''Ana'', ''Anna'']] (initial :: string world)) =
     [\<lparr>name = ''Ana'', embedding = []\<rparr>] \<and>
   count_list (trace (onresult (handleNameRecognition sample_services) addProfile 0
       [[''Ana''], [''Ana'', ''Anna'']] (initial :: string world))) (AddProfile ''Ana'') = 1"
proof -
  have k: "\<forall>ps n e m. registered m ps \<or> m = n \<longrightarrow> registered m (addProfile ps n e)"
    using addProfile_keeps by blast
  from k repeated_name_not_registered_again [OF k, of "handleNameRecognition sample_services"
      "''Ana''" "''Ana''" "initial :: string world" 0 "[[''Ana''], [''Ana'', ''Anna'']]"]
  show ?thesis
    by (simp add: onresult_def register_def addProfile_def registered_def eval_defs)
qed

subsection \<open>Invariants of every run\<close>

lemma register_frame:
  "hook (register h a t w) = hook w \<and>
   (list_ex recognition_call (trace (register h a t w)) = list_ex recognition_call (trace w))"
  by (simp add: register_def world_defs split: option.splits)

lemma onresult_loop_frame:
  "hook (onresult_loop h a rs w) = hook w \<and>
   (list_ex recognition_call (trace (onresult_loop h a rs w)) = list_ex recognition_call (trace w))"
  by (induction h a rs w rule: onresult_loop.induct) (simp_all add: register_frame)

lemma fire_recognition_idle:
  "recognition_idle w \<Longrightarrow> recognition_idle (fire sv ev w)"
proof (cases ev)
  case (Start i env now)
  then show "recognition_idle w \<Longrightarrow> recognition_idle (fire sv ev w)"
    by (simp add: recognition_idle_def op_defs world_defs Let_def split: option.splits)
next
  case Stop
  then show "recognition_idle w \<Longrightarrow> recognition_idle (fire sv ev w)"
    by (simp add: recognition_idle_def op_defs Let_def stop_tracks_frame
        world_defs list_ex_iff split: option.splits) auto
next
  case Pause
  then show "recognition_idle w \<Longrightarrow> recognition_idle (fire sv ev w)"
    by (simp add: recognition_idle_def op_defs world_defs Let_def split: option.splits)
next
  case Resume
  then show "recognition_idle w \<Longrightarrow> recognition_idle (fire sv ev w)"
    by (simp add: recognition_idle_def op_defs world_defs Let_def split: option.splits)
next
  case (DataAvailable r d)
  then show "recognition_idle w \<Longrightarrow> recognition_idle (fire sv ev w)"
    by (simp add: recognition_idle_def op_defs world_defs)
next
  case (StopEvent r now)
  then show "recognition_idle w \<Longrightarrow> recognition_idle (fire sv ev w)"
    by (simp add: recognition_idle_def op_defs world_defs Let_def)
next
  case (FetchSettled outcome)
  then show "recognition_idle w \<Longrightarrow> recognition_idle (fire sv ev w)"
    by (simp add: recognition_idle_def op_defs world_defs Let_def split: sum.splits)
next
  case (ResultEvent i rs)
  then show "recognition_idle w \<Longrightarrow> recognition_idle (fire sv ev w)"
    by (simp add: recognition_idle_def onresult_def onresult_loop_frame)
qed

lemma run_recognition_idle:
  "recognition_idle w \<Longrightarrow> recognition_idle (run sv evs w)"
  by (induction evs arbitrary: w) (simp_all add: fire_recognition_idle)

text \<open>
  C5: after any sequence of operations and events on a freshly mounted hook, the
  \<open>speechRecognition\<close> cell is \<open>null\<close> and no call has started or stopped a
  live-recognition instance.
\<close>

theorem speechRecognition_always_null:
  "speechRecognition (hook (run sv evs initial)) = None \<and>
   \<not> list_ex recognition_call (trace (run sv evs initial))"
proof -
  have "recognition_idle (initial :: 'a world)"
    by (simp add: recognition_idle_def initial_def initial_hook_def)
  then have "recognition_idle (run sv evs (initial :: 'a world))"
    by (rule run_recognition_idle)
  then show ?thesis by (simp add: recognition_idle_def)
qed






end
